theory Spec2Isabelle
  imports Complex_Main
begin

section \<open>Numerical integration: the notebook's quadrature cells\<close>

text \<open>
  The notebook \<^verbatim>\<open>lecture-08.ipynb\<close> holds three code cells. Each is a script over
  the names \<^verbatim>\<open>f\<close>, \<^verbatim>\<open>a\<close>, \<^verbatim>\<open>b\<close>, \<^verbatim>\<open>N\<close>; the model reads every cell as a function of
  these names. Python's unbounded integers are modelled by \<open>int\<close> and a raised
  exception by \<open>Inl\<close>.

  The model is the exact-arithmetic reading of the cells: Python's floats are modelled
  by the reals. The notebook computes in double precision, and there the length of an
  array, the ceiling of \<^verbatim>\<open>(stop - start) / step\<close>, is taken of a rounded quotient. Where
  the exact quotient is an integer the rounded one can lie just above it, and
  \<^verbatim>\<open>arange\<close> then returns one element more, a node at \<^verbatim>\<open>b\<close>: on \<open>[0,1]\<close> this happens
  for \<open>N = 3\<close> in cell 1 and for \<open>N = 6\<close> and \<open>N = 7\<close> in cell 3, and the exact reading
  does not give the cell's value there. It builds the same arrays as the cells for
  \<open>N = 10\<close> on \<open>[0,1]\<close>, the notebook's own input, and wherever the step and all nodes
  are integers of moderate size. The statements below that give the value of a cell are
  made at inputs where the double computation builds the arrays of the exact reading.
\<close>

subsection \<open>Python and numpy primitives used by the cells\<close>

datatype error = ZeroDivisionError

text \<open>
  Python's true division \<^verbatim>\<open>x / y\<close>: raises on a zero divisor. The quotient is the
  exact one, not the nearest double.
\<close>

definition true_div :: "real \<Rightarrow> real \<Rightarrow> error + real" where
  "true_div x y = (if y = 0 then Inl ZeroDivisionError else Inr (x / y))"

text \<open>
  \<^verbatim>\<open>numpy.arange(start, stop, step)\<close>: the length is the ceiling of
  \<^verbatim>\<open>(stop - start) / step\<close> (no element when that is not positive), element \<open>i\<close> is
  \<^verbatim>\<open>start + i * step\<close>. The length is computed by a true division, which raises
  for a zero step. The quotient and so the length are the exact ones: the double
  quotient of the cells can lie above an integer that the exact quotient equals.
\<close>

definition arange :: "real \<Rightarrow> real \<Rightarrow> real \<Rightarrow> error + real list" where
  "arange start stop step =
     (if step = 0 then Inl ZeroDivisionError
      else Inr (map (\<lambda>i. start + real i * step)
                  [0 ..< nat \<lceil>(stop - start) / step\<rceil>]))"

text \<open>Python's builtin \<^verbatim>\<open>sum\<close>: a left fold starting from \<open>0\<close>.\<close>

definition sum_py :: "real list \<Rightarrow> real" where
  "sum_py ys = foldl (+) 0 ys"

subsection \<open>The integrand of the notebook\<close>

text \<open>\<^verbatim>\<open>def f(x): f=x**4; return f\<close>\<close>

definition f :: "real \<Rightarrow> real" where
  "f x = x ^ 4"

subsection \<open>Cell 1: Trapezoidal rule\<close>

text \<open>
  \<^verbatim>\<open>
  h=(b-a)/N
  x=arange(a+h,b,h)
  y=f(x)
  integral1=0.5*h*(f(a)+f(b))+sum(y)*h
  \<close>
  The integrand is applied to the array elementwise.
\<close>

definition integral1 :: "(real \<Rightarrow> real) \<Rightarrow> real \<Rightarrow> real \<Rightarrow> int \<Rightarrow> error + real" where
  "integral1 g a b N =
     (case true_div (b - a) (of_int N) of
        Inl e \<Rightarrow> Inl e
      | Inr h \<Rightarrow>
         (case arange (a + h) b h of
            Inl e \<Rightarrow> Inl e
          | Inr x \<Rightarrow>
             (let y = map g x
              in Inr (0.5 * h * (g a + g b) + sum_py y * h))))"

subsection \<open>Cell 2: the Euler-McLaurin error estimate\<close>

text \<open>
  \<^verbatim>\<open>
  h=(b-a)/N
  x=np.arange(a+h,b,h,dtype='float64')
  y=f(x)
  integral=0.5*h*(f(a)+f(b))+sum(y)*h
  error_abs = abs(0.2 - integral)
  error_mc = abs((1/12)*(h**2)*(0 - 4))
  \<close>
  The estimate takes no derivative of the integrand: the cell writes the literals \<open>0\<close>
  and \<open>4\<close>. It is reached only when the lines before it have not raised.
\<close>

definition error_mc :: "real \<Rightarrow> real \<Rightarrow> int \<Rightarrow> error + real" where
  "error_mc a b N =
     (case true_div (b - a) (of_int N) of
        Inl e \<Rightarrow> Inl e
      | Inr h \<Rightarrow>
         (case arange (a + h) b h of
            Inl e \<Rightarrow> Inl e
          | Inr x \<Rightarrow> Inr \<bar>(1 / 12) * (h ^ 2) * (0 - 4)\<bar>))"

subsection \<open>Cell 3: Simpson rule\<close>

text \<open>
  \<^verbatim>\<open>
  h=(b-a)/N
  x_odd=arange(a+h,b,2*h)
  y_odd=f(x_odd)
  x_even=arange(a+2*h,b,2*h)
  y_even=f(x_even)
  integral=h*(1./3.)*(f(a)+f(b)+4*sum(y_odd)+2*sum(y_even))
  \<close>
\<close>

definition integral :: "(real \<Rightarrow> real) \<Rightarrow> real \<Rightarrow> real \<Rightarrow> int \<Rightarrow> error + real" where
  "integral g a b N =
     (case true_div (b - a) (of_int N) of
        Inl e \<Rightarrow> Inl e
      | Inr h \<Rightarrow>
         (case arange (a + h) b (2 * h) of
            Inl e \<Rightarrow> Inl e
          | Inr x_odd \<Rightarrow>
             (let y_odd = map g x_odd
              in (case arange (a + 2 * h) b (2 * h) of
                    Inl e \<Rightarrow> Inl e
                  | Inr x_even \<Rightarrow>
                     (let y_even = map g x_even
                      in Inr (h * (1 / 3) *
                           (g a + g b + 4 * sum_py y_odd + 2 * sum_py y_even)))))))"

subsection \<open>Step-size optimizer\<close>

text \<open>
  Modelled from the spec: the total error of section 4.4, \<^verbatim>\<open>C h^p + eps h^(-1/2)\<close>,
  for a truncation exponent \<open>p\<close>, a leading coefficient \<open>C\<close> and a round-off coefficient
  \<open>eps\<close>. The notebook has no code for it; its markdown cell on round-off writes the
  two terms for the Trapezoidal rule on \<open>x\<^sup>4\<close> only, as \<^verbatim>\<open>1/3 h^2\<close> and
  \<^verbatim>\<open>eps h^(-1/2)\<close>.
\<close>

definition total_error :: "nat \<Rightarrow> real \<Rightarrow> real \<Rightarrow> real \<Rightarrow> real" where
  "total_error p C eps h = C * h ^ p + eps * h powr (- 1 / 2)"

text \<open>
  Modelled from the spec: the step-size optimizer of section 4.4, for which the notebook
  has no code. The step is chosen where the two error terms are equal (the documented
  heuristic), and is returned with the total error predicted there. The notebook's
  markdown derives one instance: \<^verbatim>\<open>1/3 h^2 = eps h^(-1/2)\<close>, hence
  \<^verbatim>\<open>h = (3 eps)^(2/5)\<close>.
\<close>

definition optimal_step :: "nat \<Rightarrow> real \<Rightarrow> real \<Rightarrow> real \<times> real" where
  "optimal_step p C eps =
     (let h = (eps / C) powr (1 / (real p + 1 / 2))
      in (h, total_error p C eps h))"

section \<open>Auxiliary facts\<close>

subsection \<open>The primitives\<close>

lemma foldl_plus_sum_list: "foldl (+) s ys = s + sum_list (ys :: real list)"
  by (induction ys arbitrary: s) (simp_all add: add.assoc)

lemma sum_py_sum_list: "sum_py ys = sum_list ys"
  by (simp add: sum_py_def foldl_plus_sum_list)

lemma sum_py_map_upt: "sum_py (map g (map p [0..<n])) = (\<Sum>i<n. g (p i))"
proof -
  have "sum_py (map g (map p [0..<n])) = sum_list (map (\<lambda>i. g (p i)) [0..<n])"
    by (simp add: sum_py_sum_list comp_def)
  also have "\<dots> = (\<Sum>i\<in>set [0..<n]. g (p i))"
    by (rule interv_sum_list_conv_sum_set_nat)
  also have "\<dots> = (\<Sum>i<n. g (p i))"
    by (simp add: atLeast0LessThan)
  finally show ?thesis .
qed

lemma true_div_ok: "y \<noteq> 0 \<Longrightarrow> true_div x y = Inr (x / y)"
  by (simp add: true_div_def)

lemma arange_of_int:
  assumes "step \<noteq> 0" and "(stop - start) / step = of_int k"
  shows "arange start stop step = Inr (map (\<lambda>i. start + real i * step) [0..<nat k])"
  using assms by (simp add: arange_def)

lemma arange_half:
  assumes "step \<noteq> 0" and "(stop - start) / step = of_int k / 2"
  shows "arange start stop step = Inr (map (\<lambda>i. start + real i * step) [0..<nat ((k + 1) div 2)])"
proof -
  have "\<lceil>(of_int k / 2 :: real)\<rceil> = (k + 1) div 2"
    by (simp add: ceiling_altdef floor_divide_of_int_eq [of k 2, simplified]) (auto elim!: evenE oddE)
  then have "nat \<lceil>(stop - start) / step\<rceil> = nat ((k + 1) div 2)"
    by (simp only: assms(2))
  with assms(1) show ?thesis by (simp only: arange_def if_False)
qed

lemma step_props:
  fixes a b :: real
  assumes "a \<noteq> b" "N \<noteq> 0"
  defines "h \<equiv> (b - a) / of_int N"
  shows "h \<noteq> 0" and "(b - (a + h)) / h = of_int (N - 1)"
    and "(b - (a + h)) / (2 * h) = of_int (N - 1) / 2"
    and "(b - (a + 2 * h)) / (2 * h) = of_int (N - 2) / 2"
  using assms by (simp_all add: field_simps)

subsection \<open>Closed forms of the cells in exact arithmetic, failures, linearity\<close>

lemma integral1_closed:
  assumes "a \<noteq> b" "N \<noteq> 0"
  defines "h \<equiv> (b - a) / of_int N"
  shows "integral1 g a b N =
           Inr (0.5 * h * (g a + g b) + (\<Sum>i<nat (N - 1). g (a + h + real i * h)) * h)"
proof -
  have d: "true_div (b - a) (of_int N) = Inr h"
    using assms by (simp add: true_div_ok)
  have x: "arange (a + h) b h = Inr (map (\<lambda>i. a + h + real i * h) [0..<nat (N - 1)])"
    unfolding h_def by (rule arange_of_int) (rule step_props [OF assms(1,2)])+
  show ?thesis
    by (simp only: integral1_def d x sum.case Let_def sum_py_map_upt)
qed

lemma integral_closed:
  assumes "a \<noteq> b" "N \<noteq> 0"
  defines "h \<equiv> (b - a) / of_int N"
  shows "integral g a b N =
           Inr (h * (1 / 3) * (g a + g b
                  + 4 * (\<Sum>i<nat (N div 2). g (a + h + real i * (2 * h)))
                  + 2 * (\<Sum>i<nat ((N - 1) div 2). g (a + 2 * h + real i * (2 * h)))))"
proof -
  have d: "true_div (b - a) (of_int N) = Inr h"
    using assms by (simp add: true_div_ok)
  have h2: "2 * h \<noteq> 0"
    using step_props(1) [OF assms(1,2)] by (simp add: h_def)
  have "arange (a + h) b (2 * h) = Inr (map (\<lambda>i. a + h + real i * (2 * h)) [0..<nat ((N - 1 + 1) div 2)])"
    using h2 unfolding h_def by (rule arange_half) (rule step_props [OF assms(1,2)])
  then have xo: "arange (a + h) b (2 * h) = Inr (map (\<lambda>i. a + h + real i * (2 * h)) [0..<nat (N div 2)])"
    by simp
  have "arange (a + 2 * h) b (2 * h) = Inr (map (\<lambda>i. a + 2 * h + real i * (2 * h)) [0..<nat ((N - 2 + 1) div 2)])"
    using h2 unfolding h_def by (rule arange_half) (rule step_props [OF assms(1,2)])
  then have xe: "arange (a + 2 * h) b (2 * h) = Inr (map (\<lambda>i. a + 2 * h + real i * (2 * h)) [0..<nat ((N - 1) div 2)])"
    by simp
  show ?thesis
    by (simp only: integral_def d xo xe sum.case Let_def sum_py_map_upt)
qed


lemma integral_error:
  assumes "N = 0 \<or> a = b"
  shows "integral g a b N = Inl ZeroDivisionError"
proof (cases "N = 0")
  case True
  then show ?thesis by (simp add: integral_def true_div_def)
next
  case False
  with assms have "a = b" by simp
  with False show ?thesis by (simp add: integral_def true_div_def arange_def)
qed

lemma error_mc_error:
  assumes "N = 0 \<or> a = b"
  shows "error_mc a b N = Inl ZeroDivisionError"
proof (cases "N = 0")
  case True
  then show ?thesis by (simp add: error_mc_def true_div_def)
next
  case False
  with assms have "a = b" by simp
  with False show ?thesis by (simp add: error_mc_def true_div_def arange_def)
qed

lemma error_mc_closed:
  assumes "a \<noteq> b" "N \<noteq> 0"
  shows "error_mc a b N = Inr \<bar>(1 / 12) * (((b - a) / of_int N) ^ 2) * (0 - 4)\<bar>"
proof -
  define h where "h = (b - a) / of_int N"
  have d: "true_div (b - a) (of_int N) = Inr h"
    using assms by (simp add: true_div_ok h_def)
  have x: "arange (a + h) b h = Inr (map (\<lambda>i. a + h + real i * h) [0..<nat (N - 1)])"
    unfolding h_def by (rule arange_of_int) (rule step_props [OF assms(1,2)])+
  have "error_mc a b N = Inr \<bar>(1 / 12) * (h ^ 2) * (0 - 4)\<bar>"
    by (simp only: error_mc_def d x sum.case)
  then show ?thesis
    unfolding h_def .
qed

lemma error_mc_value:
  assumes "error_mc a b N = Inr v"
  shows "v = ((b - a) / of_int N) ^ 2 / 3"
proof (cases "N = 0 \<or> a = b")
  case True
  with assms show ?thesis by (simp add: error_mc_error)
next
  case False
  then have "a \<noteq> b" "N \<noteq> 0" by simp_all
  from error_mc_closed [OF this] assms show ?thesis by simp
qed

lemma f_deriv: "(f has_real_derivative 4 * x ^ 3) (at x)"
  unfolding f_def [abs_def] by (auto intro!: derivative_eq_intros)

lemma integral1_linear:
  assumes "a \<noteq> b" "N \<noteq> 0"
  shows "\<exists>u v. integral1 g1 a b N = Inr u \<and> integral1 g2 a b N = Inr v \<and>
           integral1 (\<lambda>x. c * g1 x + g2 x) a b N = Inr (c * u + v)"
proof -
  define h where "h = (b - a) / of_int N"
  let ?T = "\<lambda>g. 0.5 * h * (g a + g b) + (\<Sum>i<nat (N - 1). g (a + h + real i * h)) * h"
  have T: "integral1 g a b N = Inr (?T g)" for g
    unfolding h_def by (rule integral1_closed [OF assms])
  have "?T (\<lambda>x. c * g1 x + g2 x) = c * ?T g1 + ?T g2"
    by (simp add: sum.distrib sum_distrib_left field_simps)
  then have "integral1 (\<lambda>x. c * g1 x + g2 x) a b N = Inr (c * ?T g1 + ?T g2)"
    by (simp only: T)
  with T [of g1] T [of g2] show ?thesis by blast
qed

lemma integral_linear:
  assumes "a \<noteq> b" "N \<noteq> 0"
  shows "\<exists>u v. integral g1 a b N = Inr u \<and> integral g2 a b N = Inr v \<and>
           integral (\<lambda>x. c * g1 x + g2 x) a b N = Inr (c * u + v)"
proof -
  define h where "h = (b - a) / of_int N"
  let ?S = "\<lambda>g. h * (1 / 3) * (g a + g b
                  + 4 * (\<Sum>i<nat (N div 2). g (a + h + real i * (2 * h)))
                  + 2 * (\<Sum>i<nat ((N - 1) div 2). g (a + 2 * h + real i * (2 * h))))"
  have S: "integral g a b N = Inr (?S g)" for g
    unfolding h_def by (rule integral_closed [OF assms])
  have "?S (\<lambda>x. c * g1 x + g2 x) = c * ?S g1 + ?S g2"
    by (simp add: sum.distrib sum_distrib_left algebra_simps)
  then have "integral (\<lambda>x. c * g1 x + g2 x) a b N = Inr (c * ?S g1 + ?S g2)"
    by (simp only: S)
  with S [of g1] S [of g2] show ?thesis by blast
qed

subsection \<open>The balance point of the two error terms\<close>

lemma balance_point:
  fixes C eps :: real and p :: nat
  assumes "0 < C" and "0 < eps"
  defines "h \<equiv> (eps / C) powr (1 / (real p + 1 / 2))"
  shows "0 < h" and "C * h ^ p = eps * h powr (- 1 / 2)"
proof -
  have r: "0 < eps / C" using assms by simp
  show h: "0 < h" using assms(1,2) by (simp add: h_def)
  have q: "real p + 1 / 2 \<noteq> 0"
    by (simp add: add_nonneg_eq_0_iff)
  have "h powr (real p + 1 / 2) = eps / C"
    using assms(1,2) q by (simp add: h_def powr_powr)
  then have "h powr real p * h powr (1 / 2) = eps / C"
    by (simp add: powr_add)
  then have "h ^ p * h powr (1 / 2) = eps / C"
    using h by (simp add: powr_realpow)
  then have e: "C * (h ^ p * h powr (1 / 2)) = eps"
    using assms(1) by (simp add: field_simps)
  have "h powr (1 / 2) * h powr (- 1 / 2) = h powr (1 / 2 + - 1 / 2)"
    by (simp only: powr_add)
  also have "\<dots> = 1"
    using h by simp
  finally have st: "h powr (1 / 2) * h powr (- 1 / 2) = 1" .
  have "eps * h powr (- 1 / 2) = C * (h ^ p * h powr (1 / 2)) * h powr (- 1 / 2)"
    by (simp only: e)
  also have "\<dots> = C * h ^ p * (h powr (1 / 2) * h powr (- 1 / 2))"
    by (simp only: mult.assoc)
  also have "\<dots> = C * h ^ p"
    by (simp only: st mult_1_right)
  finally show "C * h ^ p = eps * h powr (- 1 / 2)"
    by (rule sym)
qed

section \<open>The claims\<close>

text \<open>
  C3, as stated: for every \<open>N\<close> that is odd or less than 2 (in particular 7 and 0) the
  Simpson cell fails with an InvalidPartition error and returns no number. The cell has
  no partition check: with seven bins on \<open>[0,7]\<close>, where the step is 1 and the nodes are
  the integers, it returns a number.
\<close>

theorem simpson_odd_counterexample:
  "odd (7::int) \<and> integral f 0 7 7 = Inr (8365 / 3)"
  by (simp add: integral_closed f_def eval_nat_numeral)

text \<open>
  C3, amended: the Simpson cell has no partition check and no InvalidPartition error.
  For \<open>N = 0\<close> it returns no number: it fails, with the ZeroDivisionError of
  \<^verbatim>\<open>h=(b-a)/N\<close>, for every integrand and interval. An odd \<open>N\<close>, or an \<open>N < 2\<close> other than
  0, is not rejected: for \<open>x\<^sup>4\<close> the cell returns 39 for \<open>N = 3\<close> on \<open>[0,3]\<close>, \<open>1/3\<close> for
  \<open>N = 1\<close> on \<open>[0,1]\<close> and \<open>-1/3\<close> for \<open>N = -1\<close> on \<open>[0,1]\<close>.
\<close>

theorem simpson_unchecked_partition:
  "integral g a b 0 = Inl ZeroDivisionError \<and>
   integral f 0 3 3 = Inr 39 \<and>
   integral f 0 1 1 = Inr (1 / 3) \<and>
   integral f 0 1 (- 1) = Inr (- (1 / 3))"
proof -
  have z: "integral g a b 0 = Inl ZeroDivisionError"
    by (simp add: integral_error)
  have v: "integral f 0 3 3 = Inr 39" "integral f 0 1 1 = Inr (1 / 3)"
    "integral f 0 1 (- 1) = Inr (- (1 / 3))"
    by (simp_all add: integral_closed f_def eval_nat_numeral)
  from z v show ?thesis by (simp only: simp_thms)
qed

text \<open>
  C4, as stated: for \<open>a \<ge> b\<close> the Trapezoidal cell fails with InvalidInterval and for
  \<open>N < 1\<close> with InvalidPartition, returning no number. The cell checks neither: on the
  reversed interval \<open>[1,0]\<close> and with \<open>N = -2\<close> it returns a number.
\<close>

theorem trapezoid_reversed_counterexample:
  "(1::real) \<ge> 0 \<and> integral1 f 1 0 10 = Inr (- (20333 / 100000)) \<and>
   (-2::int) < 1 \<and> integral1 f 0 1 (-2) = Inr (- (1 / 4))"
  by (simp add: integral1_closed f_def eval_nat_numeral)

text \<open>
  C4, amended: the Trapezoidal cell has no interval or partition check and neither an
  InvalidInterval nor an InvalidPartition error. For \<open>a = b\<close> and for \<open>N = 0\<close> it
  returns no number: it fails with a ZeroDivisionError, raised by \<^verbatim>\<open>h=(b-a)/N\<close> when
  \<open>N = 0\<close> and by \<^verbatim>\<open>arange\<close>'s division by the zero step when \<open>a = b\<close>. An interval with
  \<open>a > b\<close> and an \<open>N < 0\<close> are not rejected.
\<close>

theorem trapezoid_unchecked_input:
  assumes "N = 0 \<or> a = b"
  shows "integral1 g a b N = Inl ZeroDivisionError"
proof (cases "N = 0")
  case True
  then show ?thesis by (simp add: integral1_def true_div_def)
next
  case False
  with assms have "a = b" by simp
  with False show ?thesis by (simp add: integral1_def true_div_def arange_def)
qed

theorem trapezoid_unchecked_input_witness:
  "integral1 f 0 1 0 = Inl ZeroDivisionError \<and> integral1 f 1 1 10 = Inl ZeroDivisionError"
proof -
  have h1: "(0::int) = 0 \<or> (0::real) = 1" and h2: "(10::int) = 0 \<or> (1::real) = 1"
    by simp_all
  from trapezoid_unchecked_input [OF h1, of f] trapezoid_unchecked_input [OF h2, of f]
  show ?thesis by simp
qed

text \<open>
  C5. For \<open>f(x) = x\<^sup>4\<close> on \<open>[0,1]\<close> with \<open>N = 10\<close>, in exact arithmetic, the Trapezoidal
  cell returns \<open>20333/100000\<close> (absolute error \<open>333/100000\<close> against \<open>0.2\<close>) and the
  Simpson cell returns \<open>60004/300000\<close> (absolute error \<open>4/300000\<close>, about \<open>1.33e-5\<close>).
\<close>

theorem published_values_x4:
  "integral1 f 0 1 10 = Inr (20333 / 100000) \<and>
   \<bar>0.2 - 20333 / 100000\<bar> = (333 / 100000 :: real) \<and>
   integral f 0 1 10 = Inr (60004 / 300000) \<and>
   \<bar>0.2 - 60004 / 300000\<bar> = (4 / 300000 :: real) \<and>
   (4 / 300000 :: real) < 1.34 / 10 ^ 5 \<and> (1.33 / 10 ^ 5 :: real) < 4 / 300000"
proof -
  have t: "integral1 f 0 1 10 = Inr (20333 / 100000)"
    by (simp add: integral1_closed f_def eval_nat_numeral)
  have s: "integral f 0 1 10 = Inr (60004 / 300000)"
    by (simp add: integral_closed f_def eval_nat_numeral)
  show ?thesis
    by (simp only: t s) simp
qed

text \<open>
  C6, as stated: for every integrand, with the endpoint derivatives \<open>f'(a)\<close> and \<open>f'(b)\<close>
  supplied, the estimate of cell 2 at step \<open>h\<close> is \<open>\<bar>h\<^sup>2/12 (f'(a) - f'(b))\<bar>\<close>. The cell
  takes no derivative and writes \<open>0 - 4\<close>: for \<open>x\<^sup>4\<close> on \<open>[0,2]\<close> with ten bins, where
  \<open>f'(0) = 0\<close> and \<open>f'(2) = 32\<close>, it gives \<open>1/75\<close> and the formula \<open>8/75\<close>.
\<close>

theorem euler_mclaurin_literal_counterexample:
  "error_mc 0 2 10 = Inr (1 / 75) \<and>
   \<bar>((2 - 0) / 10) ^ 2 / 12 * (0 - 32)\<bar> = (8 / 75 :: real) \<and>
   (f has_real_derivative 0) (at 0) \<and> (f has_real_derivative 32) (at 2)"
proof -
  have e: "error_mc 0 2 10 = Inr (1 / 75)"
    by (simp add: error_mc_closed power2_eq_square)
  have d0: "(f has_real_derivative 0) (at 0)"
    using f_deriv [of 0] by simp
  have d2: "(f has_real_derivative 32) (at 2)"
    using f_deriv [of 2] by simp
  from e d0 d2 show ?thesis by (simp add: power2_eq_square)
qed

text \<open>
  C6, amended: the estimate of cell 2 uses the literals 0 and 4, the endpoint
  derivatives of \<open>x\<^sup>4\<close> on \<open>[0,1]\<close>, whatever the integrand and the interval. Whenever the
  cell produces it, it is \<open>\<bar>h\<^sup>2/12 (0 - 4)\<bar> = h\<^sup>2/3\<close> with \<open>h = (b - a)/N\<close>; for \<open>x\<^sup>4\<close>
  on \<open>[0,1]\<close> with \<open>N = 10\<^sup>6\<close>, where \<open>f'(0) = 0\<close> and \<open>f'(1) = 4\<close>, the cell produces it and
  it is \<open>\<bar>h\<^sup>2/12 (f'(0) - f'(1))\<bar> = h\<^sup>2/3\<close>, in exact arithmetic.
\<close>

theorem euler_mclaurin_estimate:
  "(error_mc a b N = Inr v \<longrightarrow> v = ((b - a) / of_int N) ^ 2 / 3) \<and>
   error_mc 0 1 1000000 = Inr ((1 / 10 ^ 6) ^ 2 / 3) \<and>
   \<bar>(1 / 10 ^ 6) ^ 2 / 12 * (0 - 4)\<bar> = ((1 / 10 ^ 6) ^ 2 / 3 :: real) \<and>
   (f has_real_derivative 0) (at 0) \<and> (f has_real_derivative 4) (at 1)"
proof -
  have g: "error_mc a b N = Inr v \<longrightarrow> v = ((b - a) / of_int N) ^ 2 / 3"
    by (auto dest: error_mc_value)
  have p: "error_mc 0 1 1000000 = Inr ((1 / 10 ^ 6) ^ 2 / 3)"
    by (simp add: error_mc_closed)
  have q: "\<bar>(1 / 10 ^ 6) ^ 2 / 12 * (0 - 4)\<bar> = ((1 / 10 ^ 6) ^ 2 / 3 :: real)"
    by simp
  have d0: "(f has_real_derivative 0) (at 0)"
    using f_deriv [of 0] by simp
  have d1: "(f has_real_derivative 4) (at 1)"
    using f_deriv [of 1] by simp
  from g p q d0 d1 show ?thesis by (simp only: simp_thms)
qed

theorem euler_mclaurin_estimate_witness:
  "error_mc 0 1 1000000 = Inr (1 / (3 * 10 ^ 12)) \<and>
   (1 / (3 * 10 ^ 12) :: real) = ((1 - 0) / of_int 1000000) ^ 2 / 3"
proof -
  have e: "error_mc 0 1 1000000 = Inr (1 / (3 * 10 ^ 12))"
    by (simp add: error_mc_closed power2_eq_square)
  from euler_mclaurin_estimate [of 0 1 1000000 "1 / (3 * 10 ^ 12)"] e show ?thesis
    by blast
qed

text \<open>
  C7. For \<open>p\<close> in \<open>{2, 4}\<close>, \<open>C > 0\<close> and \<open>eps > 0\<close>, the step-size optimizer returns a
  step \<open>h\<close> that satisfies the equating heuristic \<^verbatim>\<open>C h^p = eps h^(-1/2)\<close>, together
  with the total error predicted at \<open>h\<close>; for \<open>p = 2\<close> and \<open>C = 1/3\<close> the step is
  \<^verbatim>\<open>(3 eps)^(2/5)\<close>, the value derived in the notebook.
\<close>

theorem optimal_step_balances:
  assumes "p = 2 \<or> p = 4" and "0 < C" and "0 < eps"
  shows "(case optimal_step p C eps of
            (h, e) \<Rightarrow> 0 < h \<and> C * h ^ p = eps * h powr (- 1 / 2) \<and> e = total_error p C eps h) \<and>
         fst (optimal_step 2 (1 / 3) eps) = (3 * eps) powr (2 / 5)"
proof -
  have "fst (optimal_step 2 (1 / 3) eps) = (3 * eps) powr (2 / 5)"
    by (simp add: optimal_step_def Let_def mult.commute)
  with balance_point [OF assms(2,3), of p] show ?thesis
    by (simp add: optimal_step_def Let_def)
qed


theorem optimal_step_balances_witness:
  "((2::nat) = 2 \<or> (2::nat) = 4) \<and> (0::real) < 1 / 3 \<and>
   optimal_step 2 (1 / 3) (1 / 3) = (1, 2 / 3) \<and>
   (1 / 3 :: real) * 1 ^ 2 = 1 / 3 * 1 powr (- 1 / 2)"
proof -
  have h1: "(2::nat) = 2 \<or> (2::nat) = 4" and h2: "(0::real) < 1 / 3" by simp_all
  from optimal_step_balances [OF h1 h2 h2] show ?thesis
    by (simp add: optimal_step_def total_error_def)
qed

text \<open>
  C9. In exact arithmetic both cells are linear in the integrand: for \<open>a < b\<close> and a
  valid \<open>N\<close> (at least 1 for the Trapezoidal cell, even and at least 2 for the Simpson
  cell), the value at \<open>c f + g\<close> is \<open>c\<close> times the value at \<open>f\<close> plus the value at \<open>g\<close>.
\<close>

theorem quadrature_linear:
  assumes "a < b"
  shows "(1 \<le> N \<longrightarrow>
           (\<exists>u v. integral1 g1 a b N = Inr u \<and> integral1 g2 a b N = Inr v \<and>
                  integral1 (\<lambda>x. c * g1 x + g2 x) a b N = Inr (c * u + v))) \<and>
         (2 \<le> N \<and> even N \<longrightarrow>
           (\<exists>u v. integral g1 a b N = Inr u \<and> integral g2 a b N = Inr v \<and>
                  integral (\<lambda>x. c * g1 x + g2 x) a b N = Inr (c * u + v)))"
proof (intro conjI impI)
  assume "1 \<le> N"
  with assms have "a \<noteq> b" "N \<noteq> 0" by simp_all
  then show "\<exists>u v. integral1 g1 a b N = Inr u \<and> integral1 g2 a b N = Inr v \<and>
                  integral1 (\<lambda>x. c * g1 x + g2 x) a b N = Inr (c * u + v)"
    by (rule integral1_linear)
next
  assume "2 \<le> N \<and> even N"
  with assms have "a \<noteq> b" "N \<noteq> 0" by auto
  then show "\<exists>u v. integral g1 a b N = Inr u \<and> integral g2 a b N = Inr v \<and>
                  integral (\<lambda>x. c * g1 x + g2 x) a b N = Inr (c * u + v)"
    by (rule integral_linear)
qed

theorem quadrature_linear_witness:
  "(0::real) < 1 \<and> (1::int) \<le> 2 \<and> (2::int) \<le> 2 \<and> even (2::int) \<and>
   (\<exists>u v. integral1 f 0 1 2 = Inr u \<and> integral1 (\<lambda>x. x) 0 1 2 = Inr v \<and>
          integral1 (\<lambda>x. 3 * f x + x) 0 1 2 = Inr (3 * u + v)) \<and>
   (\<exists>u v. integral f 0 1 2 = Inr u \<and> integral (\<lambda>x. x) 0 1 2 = Inr v \<and>
          integral (\<lambda>x. 3 * f x + x) 0 1 2 = Inr (3 * u + v))"
proof -
  have h: "(0::real) < 1" by simp
  from quadrature_linear [OF h, of 2 f "\<lambda>x. x" 3] show ?thesis by simp
qed

end
